theory Spec2Isabelle
  imports Complex_Main
begin

section \<open>Data model of \<open>src/scripts/globe.ts\<close>\<close>

text \<open>
  The renderer works on JavaScript numbers. They are modelled as real numbers, so every
  formula below is the source's formula in exact arithmetic. The one operation of the
  source that leaves the finite numbers on finite arguments, the division
  \<open>this.width / this.height\<close> of a viewport that may have height zero, is modelled with
  its IEEE results (\<open>jsnum\<close> below). Indices produced by \<open>Math.floor\<close> are integers.
\<close>

record EdgeLocation =
  name :: string
  lat :: real
  lon :: real

definition edgeLocations :: "EdgeLocation list" where
  "edgeLocations =
    [\<lparr>name = ''Ashburn, VA'', lat = 39.04, lon = -77.49\<rparr>,
     \<lparr>name = ''Atlanta, GA'', lat = 33.75, lon = -84.39\<rparr>,
     \<lparr>name = ''Boston, MA'', lat = 42.36, lon = -71.06\<rparr>,
     \<lparr>name = ''Jacksonville, FL'', lat = 30.33, lon = -81.66\<rparr>,
     \<lparr>name = ''Miami, FL'', lat = 25.76, lon = -80.19\<rparr>,
     \<lparr>name = ''New York, NY'', lat = 40.71, lon = -74.01\<rparr>,
     \<lparr>name = ''Newark, NJ'', lat = 40.74, lon = -74.17\<rparr>,
     \<lparr>name = ''Philadelphia, PA'', lat = 39.95, lon = -75.17\<rparr>,
     \<lparr>name = ''Tampa Bay, FL'', lat = 27.95, lon = -82.46\<rparr>,
     \<lparr>name = ''Washington D.C.'', lat = 38.91, lon = -77.04\<rparr>,
     \<lparr>name = ''Chicago, IL'', lat = 41.88, lon = -87.63\<rparr>,
     \<lparr>name = ''Columbus, OH'', lat = 39.96, lon = -83.00\<rparr>,
     \<lparr>name = ''Dallas/Fort Worth, TX'', lat = 32.78, lon = -96.80\<rparr>,
     \<lparr>name = ''Denver, CO'', lat = 39.74, lon = -104.99\<rparr>,
     \<lparr>name = ''Houston, TX'', lat = 29.76, lon = -95.37\<rparr>,
     \<lparr>name = ''Kansas City, MO'', lat = 39.10, lon = -94.58\<rparr>,
     \<lparr>name = ''Minneapolis, MN'', lat = 44.98, lon = -93.27\<rparr>,
     \<lparr>name = ''Nashville, TN'', lat = 36.16, lon = -86.78\<rparr>,
     \<lparr>name = ''South Bend, IN'', lat = 41.68, lon = -86.25\<rparr>,
     \<lparr>name = ''St. Louis, MO'', lat = 38.63, lon = -90.20\<rparr>,
     \<lparr>name = ''Hayward, CA'', lat = 37.67, lon = -122.08\<rparr>,
     \<lparr>name = ''Los Angeles, CA'', lat = 34.05, lon = -118.24\<rparr>,
     \<lparr>name = ''Palo Alto, CA'', lat = 37.44, lon = -122.14\<rparr>,
     \<lparr>name = ''Phoenix, AZ'', lat = 33.45, lon = -112.07\<rparr>,
     \<lparr>name = ''Portland, OR'', lat = 45.52, lon = -122.68\<rparr>,
     \<lparr>name = ''Salt Lake City, UT'', lat = 40.76, lon = -111.89\<rparr>,
     \<lparr>name = ''San Jose, CA'', lat = 37.34, lon = -121.89\<rparr>,
     \<lparr>name = ''Seattle, WA'', lat = 47.61, lon = -122.33\<rparr>]"

record Point2D =
  x :: real
  y :: real

text \<open>The fields \<open>from\<close> and \<open>to\<close> of a packet and of a connection are named
  \<open>pfrom\<close>, \<open>pto\<close> and \<open>cfrom\<close>, \<open>cto\<close>.\<close>

record DataPacket =
  pfrom :: int
  pto :: int
  progress :: real
  speed :: real

record Connection =
  cfrom :: nat
  cto :: nat

text \<open>
  The canvas element and its 2D context, as far as \<open>resize\<close> writes them: the size of the
  backing bitmap in whole pixels, the CSS size (the number in front of \<open>px\<close>), the scale factors of the
  context's current transform, and the image smoothing attributes.
\<close>

record Canvas =
  canvas_width :: nat
  canvas_height :: nat
  style_width :: real
  style_height :: real
  ctx_scale :: "real \<times> real"
  imageSmoothingEnabled :: bool
  imageSmoothingQuality :: string

type_synonym ring = "(real \<times> real) list"

record USMap =
  canvas :: Canvas
  width :: real
  height :: real
  mapWidth :: real
  mapHeight :: real
  offsetX :: real
  offsetY :: real
  dataPackets :: "DataPacket list"
  prefersReducedMotion :: bool
  pixelRatio :: real
  nationPath :: "ring list"
  connections :: "Connection list"

definition US_LAT_MIN :: real where "US_LAT_MIN = 24"
definition US_LAT_MAX :: real where "US_LAT_MAX = 50"
definition US_LON_MIN :: real where "US_LON_MIN = -125"
definition US_LON_MAX :: real where "US_LON_MAX = -66"

section \<open>Projection\<close>

definition latLonToXY :: "USMap \<Rightarrow> real \<Rightarrow> real \<Rightarrow> Point2D" where
  "latLonToXY s la lo =
    (let x' = offsetX s + ((lo - US_LON_MIN) / (US_LON_MAX - US_LON_MIN)) * mapWidth s;
         y' = offsetY s + ((US_LAT_MAX - la) / (US_LAT_MAX - US_LAT_MIN)) * mapHeight s
     in \<lparr>x = x', y = y'\<rparr>)"

section \<open>Connections\<close>

text \<open>
  The two nested \<open>for\<close> loops of \<open>generateConnections\<close>, over a location list of length
  \<open>m\<close>; the accumulator is \<open>this.connections\<close>, to which \<open>push\<close> appends.
\<close>

function connections_inner :: "nat \<Rightarrow> nat \<Rightarrow> nat \<Rightarrow> Connection list \<Rightarrow> Connection list" where
  "connections_inner m i j acc =
    (if j < m then connections_inner m i (j + 1) (acc @ [\<lparr>cfrom = i, cto = j\<rparr>]) else acc)"
  by pat_completeness auto
termination
  by (relation "measure (\<lambda>(m, i, j, acc). m - j)") auto

function connections_outer :: "nat \<Rightarrow> nat \<Rightarrow> Connection list \<Rightarrow> Connection list" where
  "connections_outer m i acc =
    (if i < m then connections_outer m (i + 1) (connections_inner m i (i + 1) acc) else acc)"
  by pat_completeness auto
termination
  by (relation "measure (\<lambda>(m, i, acc). m - i)") auto

definition generateConnections :: "USMap \<Rightarrow> USMap" where
  "generateConnections s =
    s\<lparr>connections := connections_outer (length edgeLocations) 0 (connections s)\<rparr>"

section \<open>Resize\<close>

text \<open>
  The quotient of two finite numbers in JavaScript: a division by zero gives an infinity
  or NaN instead of failing. Every comparison with NaN is false.
\<close>

datatype jsnum = Finite real | PosInfinity | NegInfinity | NaN

definition js_div :: "real \<Rightarrow> real \<Rightarrow> jsnum" where
  "js_div a b =
    (if b \<noteq> 0 then Finite (a / b)
     else if 0 < a then PosInfinity
     else if a < 0 then NegInfinity
     else NaN)"

fun js_gt :: "jsnum \<Rightarrow> real \<Rightarrow> bool" where
  "js_gt (Finite a) b = (b < a)"
| "js_gt PosInfinity b = True"
| "js_gt NegInfinity b = False"
| "js_gt NaN b = False"

text \<open>
  Assigning to \<open>canvas.width\<close> or \<open>canvas.height\<close> sets the bitmap dimension and, as the
  HTML standard prescribes for every such assignment, resets the 2D context to its default
  state: identity transform, image smoothing enabled with quality \<open>low\<close>. \<open>ctx.scale\<close>
  multiplies the current transform.
\<close>

definition reset_context :: "Canvas \<Rightarrow> Canvas" where
  "reset_context c =
    c\<lparr>ctx_scale := (1, 1), imageSmoothingEnabled := True, imageSmoothingQuality := ''low''\<rparr>"

text \<open>
  \<open>canvas.width\<close> and \<open>canvas.height\<close> are \<open>unsigned long\<close> attributes reflecting the content
  attributes of the element. The number assigned is converted to an \<open>unsigned long\<close>, which
  keeps its integer part, taken modulo \<open>2^32\<close>; a converted value above 2147483647 is
  replaced by the default of the attribute, 300 for the width and 150 for the height.
\<close>

definition integer_part :: "real \<Rightarrow> int" where
  "integer_part v = (if 0 \<le> v then \<lfloor>v\<rfloor> else \<lceil>v\<rceil>)"

definition to_unsigned_long :: "real \<Rightarrow> nat" where
  "to_unsigned_long v = nat (integer_part v mod 2 ^ 32)"

definition canvas_dimension :: "nat \<Rightarrow> real \<Rightarrow> nat" where
  "canvas_dimension fallback v =
    (let n = to_unsigned_long v in if n \<le> 2147483647 then n else fallback)"

definition set_canvas_width :: "real \<Rightarrow> Canvas \<Rightarrow> Canvas" where
  "set_canvas_width v c = reset_context (c\<lparr>canvas_width := canvas_dimension 300 v\<rparr>)"

definition set_canvas_height :: "real \<Rightarrow> Canvas \<Rightarrow> Canvas" where
  "set_canvas_height v c = reset_context (c\<lparr>canvas_height := canvas_dimension 150 v\<rparr>)"

definition ctx_scale_by :: "real \<Rightarrow> real \<Rightarrow> Canvas \<Rightarrow> Canvas" where
  "ctx_scale_by sx sy c = c\<lparr>ctx_scale := (fst (ctx_scale c) * sx, snd (ctx_scale c) * sy)\<rparr>"

text \<open>What the renderer reads from \<open>window\<close>.\<close>

record Window =
  innerWidth :: real
  innerHeight :: real
  devicePixelRatio :: real
  reducedMotionMatches :: bool

definition resize :: "Window \<Rightarrow> USMap \<Rightarrow> USMap" where
  "resize win s =
    (let w = innerWidth win;
         h = innerHeight win;
         c1 = set_canvas_width (w * pixelRatio s) (canvas s);
         c2 = set_canvas_height (h * pixelRatio s) c1;
         c3 = c2\<lparr>style_width := w, style_height := h\<rparr>;
         c4 = ctx_scale_by (pixelRatio s) (pixelRatio s) c3;
         c5 = c4\<lparr>imageSmoothingEnabled := True, imageSmoothingQuality := ''high''\<rparr>;
         usAspectRatio = (US_LON_MAX - US_LON_MIN) / (US_LAT_MAX - US_LAT_MIN);
         screenAspectRatio = js_div w h;
         (mw, mh) =
           (if js_gt screenAspectRatio usAspectRatio
            then (let mh = h * 0.8 in (mh * usAspectRatio, mh))
            else (let mw = w * 0.9 in (mw, mw / usAspectRatio)))
     in s\<lparr>canvas := c5, width := w, height := h, mapWidth := mw, mapHeight := mh,
          offsetX := (w - mw) / 2, offsetY := (h - mh) / 2\<rparr>)"

section \<open>Data packets\<close>

text \<open>
  \<open>Math.random\<close> is an input: during one call of an operation, its \<open>k\<close>-th invocation
  returns \<open>rnd k\<close>. Its contract is a value in \<open>[0, 1)\<close>.
\<close>

type_synonym rng = "nat \<Rightarrow> real"

definition valid_rng :: "rng \<Rightarrow> bool" where
  "valid_rng rnd = (\<forall>k. 0 \<le> rnd k \<and> rnd k < 1)"

definition randomIndex :: "real \<Rightarrow> int" where
  "randomIndex r = \<lfloor>r * real (length edgeLocations)\<rfloor>"

definition newPacket :: "rng \<Rightarrow> nat \<Rightarrow> DataPacket" where
  "newPacket rnd k =
    \<lparr>pfrom = randomIndex (rnd k), pto = randomIndex (rnd (k + 1)),
     progress = rnd (k + 2), speed = 0.002 + rnd (k + 3) * 0.003\<rparr>"

function initDataPackets_loop ::
  "rng \<Rightarrow> nat \<Rightarrow> nat \<Rightarrow> nat \<Rightarrow> DataPacket list \<Rightarrow> DataPacket list" where
  "initDataPackets_loop rnd numPackets i k acc =
    (if i < numPackets
     then initDataPackets_loop rnd numPackets (i + 1) (k + 4) (acc @ [newPacket rnd k])
     else acc)"
  by pat_completeness auto
termination
  by (relation "measure (\<lambda>(rnd, numPackets, i, k, acc). numPackets - i)") auto

definition initDataPackets :: "rng \<Rightarrow> Window \<Rightarrow> USMap \<Rightarrow> USMap" where
  "initDataPackets rnd win s =
    (let numPackets = (if innerWidth win < 768 then 15 else 25)
     in s\<lparr>dataPackets := initDataPackets_loop rnd numPackets 0 0 (dataPackets s)\<rparr>)"

text \<open>
  The first half of the \<open>forEach\<close> body of \<open>drawDataPackets\<close>: the packet is advanced
  unless reduced motion is preferred. \<open>k\<close> counts the calls of \<open>Math.random\<close> so far.
\<close>

definition advancePacket :: "bool \<Rightarrow> rng \<Rightarrow> nat \<Rightarrow> DataPacket \<Rightarrow> DataPacket \<times> nat" where
  "advancePacket reduced rnd k p =
    (if \<not> reduced
     then (let p1 = p\<lparr>progress := progress p + speed p\<rparr>
           in if progress p1 \<ge> 1
              then (p1\<lparr>progress := 0, pfrom := randomIndex (rnd k),
                       pto := randomIndex (rnd (k + 1))\<rparr>, k + 2)
              else (p1, k))
     else (p, k))"

text \<open>
  Indexing a JavaScript array with an integer: \<open>undefined\<close> outside the array. Reading
  \<open>.lat\<close> of \<open>undefined\<close> throws a \<open>TypeError\<close>.
\<close>

datatype error = ContextError | TypeError

definition js_index :: "'a list \<Rightarrow> int \<Rightarrow> 'a option" where
  "js_index xs i = (if 0 \<le> i \<and> i < int (length xs) then Some (xs ! nat i) else None)"

text \<open>The quadratic curve of the packet: where the packet is drawn at progress \<open>t\<close>.\<close>

definition packetPosition :: "Point2D \<Rightarrow> Point2D \<Rightarrow> real \<Rightarrow> Point2D" where
  "packetPosition fromPoint toPoint t =
    (let controlX = (x fromPoint + x toPoint) / 2;
         controlY = min (y fromPoint) (y toPoint) - 50;
         x' = (1 - t) * (1 - t) * x fromPoint + 2 * (1 - t) * t * controlX + t * t * x toPoint;
         y' = (1 - t) * (1 - t) * y fromPoint + 2 * (1 - t) * t * controlY + t * t * y toPoint
     in \<lparr>x = x', y = y'\<rparr>)"

text \<open>The second half of the \<open>forEach\<close> body: the centre of the two arcs drawn for the
  packet, or the \<open>TypeError\<close> of a failed lookup.\<close>

definition drawPacket :: "USMap \<Rightarrow> DataPacket \<Rightarrow> error + Point2D" where
  "drawPacket s packet =
    (case js_index edgeLocations (pfrom packet) of
       None \<Rightarrow> Inl TypeError
     | Some from \<Rightarrow>
        (case js_index edgeLocations (pto packet) of
           None \<Rightarrow> Inl TypeError
         | Some to \<Rightarrow>
            (let fromPoint = latLonToXY s (lat from) (lon from);
                 toPoint = latLonToXY s (lat to) (lon to)
             in Inr (packetPosition fromPoint toPoint (progress packet)))))"

text \<open>
  The \<open>forEach\<close> over the packets. The result is the packet array after the loop and what
  the loop drew: the packet centres in order, or the exception that ended it, which
  leaves the packets after the failing one as they were.
\<close>

fun forEach_packets ::
  "USMap \<Rightarrow> rng \<Rightarrow> nat \<Rightarrow> DataPacket list \<Rightarrow> DataPacket list \<times> (error + Point2D list)" where
  "forEach_packets s rnd k [] = ([], Inr [])"
| "forEach_packets s rnd k (p # ps) =
    (let (p', k') = advancePacket (prefersReducedMotion s) rnd k p
     in case drawPacket s p' of
          Inl e \<Rightarrow> (p' # ps, Inl e)
        | Inr pt \<Rightarrow>
           (let (ps', r) = forEach_packets s rnd k' ps
            in (p' # ps', case r of Inl e \<Rightarrow> Inl e | Inr pts \<Rightarrow> Inr (pt # pts))))"

definition drawDataPackets :: "rng \<Rightarrow> USMap \<Rightarrow> USMap \<times> (error + Point2D list)" where
  "drawDataPackets rnd s =
    (let (ps', r) = forEach_packets s rnd 0 (dataPackets s)
     in (s\<lparr>dataPackets := ps'\<rparr>, r))"

text \<open>The per-frame packet step invoked once for each element of \<open>rnds\<close>, the random
  sequences of the successive invocations.\<close>

definition drawDataPackets_times :: "rng list \<Rightarrow> USMap \<Rightarrow> USMap" where
  "drawDataPackets_times rnds s = fold (\<lambda>rnd s'. fst (drawDataPackets rnd s')) rnds s"

section \<open>Construction and the life of the renderer\<close>

text \<open>
  The border geometry is an input: \<open>nationGeoJSON\<close>, what \<open>topojson.feature\<close> returns,
  is either a collection of features or one feature, and a geometry is a polygon, a
  multi-polygon or something else, which \<open>extractCoordinates\<close> ignores.
\<close>

datatype Geometry = Polygon "ring list" | MultiPolygon "ring list list" | OtherGeometry

datatype GeoJSON = FeatureCollection "Geometry list" | Feature Geometry

fun extractCoordinates :: "Geometry \<Rightarrow> USMap \<Rightarrow> USMap" where
  "extractCoordinates (Polygon rings) s = s\<lparr>nationPath := nationPath s @ rings\<rparr>"
| "extractCoordinates (MultiPolygon polygons) s = s\<lparr>nationPath := nationPath s @ concat polygons\<rparr>"
| "extractCoordinates OtherGeometry s = s"

fun loadUSBorder :: "GeoJSON \<Rightarrow> USMap \<Rightarrow> USMap" where
  "loadUSBorder (FeatureCollection features) s = fold extractCoordinates features s"
| "loadUSBorder (Feature geometry) s = extractCoordinates geometry s"

text \<open>
  The constructor, up to \<open>setupEventListeners\<close>. \<open>context\<close> tells whether
  \<open>canvas.getContext\<close> returned a context; \<open>window.devicePixelRatio || 1\<close> replaces a
  ratio of zero by one. The constructor's last call, \<open>this.animate()\<close>, is the first frame.
\<close>

definition new_USMap :: "Canvas \<Rightarrow> bool \<Rightarrow> Window \<Rightarrow> GeoJSON \<Rightarrow> rng \<Rightarrow> error + USMap" where
  "new_USMap cv context win geo rnd =
    (if \<not> context then Inl ContextError
     else
      (let s0 = \<lparr>canvas = cv\<lparr>imageSmoothingEnabled := True, imageSmoothingQuality := ''high''\<rparr>,
                 width = 0, height = 0, mapWidth = 0, mapHeight = 0, offsetX = 0, offsetY = 0,
                 dataPackets = [],
                 prefersReducedMotion = reducedMotionMatches win,
                 pixelRatio = (if devicePixelRatio win = 0 then 1 else devicePixelRatio win),
                 nationPath = [], connections = []\<rparr>;
           s1 = loadUSBorder geo s0;
           s2 = generateConnections s1;
           s3 = resize win s2;
           s4 = initDataPackets rnd win s3
       in Inr s4))"

text \<open>
  One frame. Clearing the canvas and drawing the grid, the border, the connection lines
  and the edge locations read the state and write pixels only; \<open>drawDataPackets\<close> is the
  one routine of \<open>animate\<close> that writes the state.
\<close>

definition animate :: "rng \<Rightarrow> USMap \<Rightarrow> USMap \<times> (error + Point2D list)" where
  "animate rnd s = drawDataPackets rnd s"

text \<open>
  The states the renderer can be in: the constructed one, and what a frame, a resize event
  or a change of the reduced-motion preference makes of a reachable state. A viewport has
  non-negative width and height.
\<close>

inductive reachable :: "USMap \<Rightarrow> bool" where
  constructed:
    "valid_rng rnd \<Longrightarrow> 0 \<le> innerWidth win \<Longrightarrow> 0 \<le> innerHeight win \<Longrightarrow>
     new_USMap cv True win geo rnd = Inr s \<Longrightarrow> reachable s"
| frame:
    "reachable s \<Longrightarrow> valid_rng rnd \<Longrightarrow> reachable (fst (animate rnd s))"
| resized:
    "reachable s \<Longrightarrow> 0 \<le> innerWidth win \<Longrightarrow> 0 \<le> innerHeight win \<Longrightarrow>
     reachable (resize win s)"
| motion_changed:
    "reachable s \<Longrightarrow> reachable (s\<lparr>prefersReducedMotion := b\<rparr>)"

section \<open>Auxiliary definitions\<close>

text \<open>The well-formedness of a packet: progress in \<open>[0, 1)\<close>, a speed that does not move it
  backwards, and both indices inside the location list.\<close>

definition packet_ok :: "DataPacket \<Rightarrow> bool" where
  "packet_ok p =
    (0 \<le> progress p \<and> progress p < 1 \<and> 0 \<le> speed p \<and>
     0 \<le> pfrom p \<and> pfrom p < int (length edgeLocations) \<and>
     0 \<le> pto p \<and> pto p < int (length edgeLocations))"


text \<open>
  A concrete run: a fresh canvas element of the default size, a viewport of 1180 by 600
  pixels at pixel ratio 2, a border of one empty polygon, and a random generator that
  always returns one half. \<open>example_map\<close> is the renderer constructed from them,
  \<open>narrow_window\<close> a later viewport of 800 by 600 pixels. \<open>odd_window\<close> is a viewport of 801
  by 601 pixels at pixel ratio one and a half, and \<open>odd_map\<close> the renderer constructed for
  it. \<open>late_rng\<close> always returns 0.999, so that every packet of \<open>late_map\<close>, the renderer
  constructed with it, starts at progress 0.999 and wraps in its first frame.
\<close>

definition example_canvas :: Canvas where
  "example_canvas =
    \<lparr>canvas_width = 300, canvas_height = 150, style_width = 0, style_height = 0,
     ctx_scale = (1, 1), imageSmoothingEnabled = True, imageSmoothingQuality = ''low''\<rparr>"

definition example_window :: Window where
  "example_window =
    \<lparr>innerWidth = 1180, innerHeight = 600, devicePixelRatio = 2, reducedMotionMatches = False\<rparr>"

definition narrow_window :: Window where
  "narrow_window =
    \<lparr>innerWidth = 800, innerHeight = 600, devicePixelRatio = 2, reducedMotionMatches = False\<rparr>"

definition odd_window :: Window where
  "odd_window =
    \<lparr>innerWidth = 801, innerHeight = 601, devicePixelRatio = 3 / 2, reducedMotionMatches = False\<rparr>"

definition example_rng :: rng where
  "example_rng = (\<lambda>k. 1 / 2)"

definition example_map :: USMap where
  "example_map =
    projr (new_USMap example_canvas True example_window (Feature (Polygon [])) example_rng)"

definition odd_map :: USMap where
  "odd_map =
    projr (new_USMap example_canvas True odd_window (Feature (Polygon [])) example_rng)"

definition late_rng :: rng where
  "late_rng = (\<lambda>k. 0.999)"

definition late_map :: USMap where
  "late_map =
    projr (new_USMap example_canvas True example_window (Feature (Polygon [])) late_rng)"

text \<open>The number of calls of \<open>Math.random\<close> that a frame makes before it reaches the packet
  at index \<open>i\<close>: two for every earlier packet that wraps, none under reduced motion.\<close>

definition draws_used :: "bool \<Rightarrow> DataPacket list \<Rightarrow> nat" where
  "draws_used reduced ps =
    (if reduced then 0 else 2 * length (filter (\<lambda>q. 1 \<le> progress q + speed q) ps))"

definition draws_before :: "USMap \<Rightarrow> nat \<Rightarrow> nat" where
  "draws_before s i = draws_used (prefersReducedMotion s) (take i (dataPackets s))"

definition example_packet :: DataPacket where
  "example_packet = \<lparr>pfrom = 0, pto = 1, progress = 0.999, speed = 0.002\<rparr>"

declare connections_inner.simps [simp del]
declare connections_outer.simps [simp del]
declare initDataPackets_loop.simps [simp del]

section \<open>Basic facts\<close>

lemmas US_bounds = US_LAT_MIN_def US_LAT_MAX_def US_LON_MIN_def US_LON_MAX_def

lemma length_edgeLocations: "length edgeLocations = 28"
  by (simp add: edgeLocations_def)

lemma latLonToXY_x: "x (latLonToXY s la lo) = offsetX s + (lo + 125) / 59 * mapWidth s"
  by (simp add: latLonToXY_def US_bounds)

lemma latLonToXY_y: "y (latLonToXY s la lo) = offsetY s + (50 - la) / 26 * mapHeight s"
  by (simp add: latLonToXY_def US_bounds)

lemma resize_map:
  "mapWidth (resize win s) =
     (if js_gt (js_div (innerWidth win) (innerHeight win)) (59 / 26)
      then innerHeight win * 0.8 * (59 / 26) else innerWidth win * 0.9)"
  "mapHeight (resize win s) =
     (if js_gt (js_div (innerWidth win) (innerHeight win)) (59 / 26)
      then innerHeight win * 0.8 else innerWidth win * 0.9 / (59 / 26))"
  "offsetX (resize win s) = (innerWidth win - mapWidth (resize win s)) / 2"
  "offsetY (resize win s) = (innerHeight win - mapHeight (resize win s)) / 2"
  by (simp_all add: resize_def US_bounds Let_def)

lemma resize_frame:
  "dataPackets (resize win s) = dataPackets s"
  "prefersReducedMotion (resize win s) = prefersReducedMotion s"
  "pixelRatio (resize win s) = pixelRatio s"
  "nationPath (resize win s) = nationPath s"
  "connections (resize win s) = connections s"
  by (simp_all add: resize_def Let_def split_beta)

lemma resize_canvas:
  "canvas (resize win s) =
     (canvas s)\<lparr>canvas_width := canvas_dimension 300 (innerWidth win * pixelRatio s),
       canvas_height := canvas_dimension 150 (innerHeight win * pixelRatio s),
       style_width := innerWidth win, style_height := innerHeight win,
       ctx_scale := (pixelRatio s, pixelRatio s),
       imageSmoothingEnabled := True, imageSmoothingQuality := ''high''\<rparr>"
  by (simp add: resize_def Let_def split_beta set_canvas_width_def set_canvas_height_def
      reset_context_def ctx_scale_by_def)

lemma canvas_dimension_integer_part:
  assumes "0 \<le> v" and "v < 2147483648"
  shows "canvas_dimension d v = nat \<lfloor>v\<rfloor>"
proof -
  from assms have lo: "0 \<le> \<lfloor>v\<rfloor>" and hi: "\<lfloor>v\<rfloor> < 2147483648"
    by (simp_all add: floor_less_iff)
  then have "\<lfloor>v\<rfloor> mod 2 ^ 32 = \<lfloor>v\<rfloor>"
    by simp
  moreover from lo hi have "nat \<lfloor>v\<rfloor> \<le> 2147483647"
    by linarith
  ultimately show ?thesis
    using assms(1) by (simp add: canvas_dimension_def to_unsigned_long_def integer_part_def Let_def)
qed

lemma resize_viewport:
  "width (resize win s) = innerWidth win" "height (resize win s) = innerHeight win"
  by (simp_all add: resize_def Let_def split_beta)

subsection \<open>The example run\<close>

lemma example_rng_valid: "valid_rng example_rng"
  by (simp add: valid_rng_def example_rng_def)

lemma example_map_constructed:
  "new_USMap example_canvas True example_window (Feature (Polygon [])) example_rng =
   Inr example_map"
  by (simp add: example_map_def new_USMap_def)

lemma example_map_reachable: "reachable example_map"
  by (rule reachable.constructed [OF example_rng_valid _ _ example_map_constructed])
     (simp_all add: example_window_def)

lemma example_map_params:
  "width example_map = 1180" "height example_map = 600"
  "mapWidth example_map = 1062" "mapHeight example_map = 468"
  "offsetX example_map = 59" "offsetY example_map = 66"
  "prefersReducedMotion example_map = False" "pixelRatio example_map = 2"
  by (simp_all add: example_map_def new_USMap_def Let_def initDataPackets_def resize_def
      generateConnections_def example_window_def js_div_def US_bounds split_beta)

lemma example_window_nonneg:
  "0 \<le> innerWidth example_window" "0 \<le> innerHeight example_window"
  by (simp_all add: example_window_def)

lemma example_map_canvas:
  "canvas example_map =
     \<lparr>canvas_width = 2360, canvas_height = 1200, style_width = 1180, style_height = 600,
      ctx_scale = (2, 2), imageSmoothingEnabled = True, imageSmoothingQuality = ''high''\<rparr>"
  by (simp add: example_map_def new_USMap_def Let_def initDataPackets_def resize_def
      generateConnections_def example_window_def example_canvas_def split_beta
      set_canvas_width_def set_canvas_height_def reset_context_def ctx_scale_by_def
      canvas_dimension_integer_part)

lemma example_packets:
  "dataPackets example_map =
     replicate 25 \<lparr>pfrom = 14, pto = 14, progress = 1 / 2, speed = 0.0035\<rparr>"
proof -
  have "dataPackets example_map = initDataPackets_loop example_rng 25 0 0 []"
    by (simp add: example_map_def new_USMap_def Let_def initDataPackets_def resize_def
        generateConnections_def example_window_def split_beta)
  also have "\<dots> = replicate 25 \<lparr>pfrom = 14, pto = 14, progress = 1 / 2, speed = 0.0035\<rparr>"
    by (simp add: initDataPackets_loop.simps newPacket_def example_rng_def randomIndex_def
        length_edgeLocations numeral_eq_Suc)
  finally show ?thesis .
qed

lemma odd_map_pixelRatio: "pixelRatio odd_map = 3 / 2"
  by (simp add: odd_map_def new_USMap_def Let_def initDataPackets_def resize_def
      generateConnections_def odd_window_def split_beta)

lemma odd_window_size: "innerWidth odd_window = 801" "innerHeight odd_window = 601"
  by (simp_all add: odd_window_def)

lemma odd_dims:
  "canvas_dimension 300 (801 * (3 / 2)) = 1201" "canvas_dimension 150 (601 * (3 / 2)) = 901"
  by (simp_all add: canvas_dimension_integer_part)

lemma late_rng_valid: "valid_rng late_rng"
  by (simp add: valid_rng_def late_rng_def)

lemma late_map_reachable: "reachable late_map"
proof -
  have "new_USMap example_canvas True example_window (Feature (Polygon [])) late_rng = Inr late_map"
    by (simp add: late_map_def new_USMap_def)
  from reachable.constructed [OF late_rng_valid example_window_nonneg this] show ?thesis .
qed

lemma late_packets:
  "dataPackets late_map =
     replicate 25 \<lparr>pfrom = 27, pto = 27, progress = 0.999, speed = 0.004997\<rparr>"
proof -
  have "dataPackets late_map = initDataPackets_loop late_rng 25 0 0 []"
    by (simp add: late_map_def new_USMap_def Let_def initDataPackets_def resize_def
        generateConnections_def example_window_def split_beta)
  also have "\<dots> = replicate 25 \<lparr>pfrom = 27, pto = 27, progress = 0.999, speed = 0.004997\<rparr>"
    by (simp add: initDataPackets_loop.simps newPacket_def late_rng_def randomIndex_def
        length_edgeLocations numeral_eq_Suc)
  finally show ?thesis .
qed

lemma late_flag: "prefersReducedMotion late_map = False"
  by (simp add: late_map_def new_USMap_def Let_def initDataPackets_def resize_def
      generateConnections_def example_window_def split_beta)

lemma example_flag: "prefersReducedMotion example_map = False"
  by (simp add: example_map_params)

lemma example_resize_params:
  "mapWidth (resize example_window example_map) = 1062"
  "mapHeight (resize example_window example_map) = 468"
  "offsetX (resize example_window example_map) = 59"
  "offsetY (resize example_window example_map) = 66"
  by (simp_all add: resize_map example_window_def js_div_def)

section \<open>Projection\<close>

text \<open>
  Claim C1. For every latitude and longitude the projection returns the point with
  \<open>x = offsetX + ((lon - LON_MIN) / (LON_MAX - LON_MIN)) * mapWidth\<close> and
  \<open>y = offsetY + ((LAT_MAX - lat) / (LAT_MAX - LAT_MIN)) * mapHeight\<close>, the bounds being
  24, 50, -125 and -66. The longitude bounds go to \<open>offsetX\<close> and \<open>offsetX + mapWidth\<close>, the
  latitude bounds, inverted, to \<open>offsetY + mapHeight\<close> and \<open>offsetY\<close>. Nothing is clamped: on
  a map of positive size a point is projected inside the horizontal (vertical) extent of the
  map exactly when its longitude (latitude) is inside the bounding box.
\<close>

theorem latLonToXY_linear:
  "latLonToXY s la lo =
     \<lparr>x = offsetX s + ((lo - (-125)) / ((-66) - (-125))) * mapWidth s,
      y = offsetY s + ((50 - la) / (50 - 24)) * mapHeight s\<rparr>
   \<and> US_LAT_MIN = 24 \<and> US_LAT_MAX = 50 \<and> US_LON_MIN = -125 \<and> US_LON_MAX = -66
   \<and> x (latLonToXY s la US_LON_MIN) = offsetX s
   \<and> x (latLonToXY s la US_LON_MAX) = offsetX s + mapWidth s
   \<and> y (latLonToXY s US_LAT_MIN lo) = offsetY s + mapHeight s
   \<and> y (latLonToXY s US_LAT_MAX lo) = offsetY s
   \<and> (0 < mapWidth s \<longrightarrow>
        (offsetX s \<le> x (latLonToXY s la lo)) = (US_LON_MIN \<le> lo) \<and>
        (x (latLonToXY s la lo) \<le> offsetX s + mapWidth s) = (lo \<le> US_LON_MAX))
   \<and> (0 < mapHeight s \<longrightarrow>
        (offsetY s \<le> y (latLonToXY s la lo)) = (la \<le> US_LAT_MAX) \<and>
        (y (latLonToXY s la lo) \<le> offsetY s + mapHeight s) = (US_LAT_MIN \<le> la))"
proof -
  have formula: "latLonToXY s la lo =
     \<lparr>x = offsetX s + ((lo - (-125)) / ((-66) - (-125))) * mapWidth s,
      y = offsetY s + ((50 - la) / (50 - 24)) * mapHeight s\<rparr>"
    by (simp add: latLonToXY_def US_bounds)
  have ends: "x (latLonToXY s la US_LON_MIN) = offsetX s"
    "x (latLonToXY s la US_LON_MAX) = offsetX s + mapWidth s"
    "y (latLonToXY s US_LAT_MIN lo) = offsetY s + mapHeight s"
    "y (latLonToXY s US_LAT_MAX lo) = offsetY s"
    by (simp_all add: latLonToXY_def US_bounds)
  have horizontal: "(offsetX s \<le> x (latLonToXY s la lo)) = (US_LON_MIN \<le> lo)"
    "(x (latLonToXY s la lo) \<le> offsetX s + mapWidth s) = (lo \<le> US_LON_MAX)"
    if "0 < mapWidth s"
  proof -
    have "(0 \<le> (lo + 125) / 59 * mapWidth s) = (- 125 \<le> lo)"
      using that by (auto simp: zero_le_mult_iff)
    then show "(offsetX s \<le> x (latLonToXY s la lo)) = (US_LON_MIN \<le> lo)"
      by (simp add: latLonToXY_x US_bounds)
    have "((lo + 125) / 59 * mapWidth s \<le> 1 * mapWidth s) = ((lo + 125) / 59 \<le> 1)"
      using that by (rule mult_le_cancel_right_pos)
    then have "((lo + 125) / 59 * mapWidth s \<le> mapWidth s) = (lo \<le> - 66)"
      by auto
    then show "(x (latLonToXY s la lo) \<le> offsetX s + mapWidth s) = (lo \<le> US_LON_MAX)"
      by (simp add: latLonToXY_x US_bounds)
  qed
  have vertical: "(offsetY s \<le> y (latLonToXY s la lo)) = (la \<le> US_LAT_MAX)"
    "(y (latLonToXY s la lo) \<le> offsetY s + mapHeight s) = (US_LAT_MIN \<le> la)"
    if "0 < mapHeight s"
  proof -
    have "(0 \<le> (50 - la) / 26 * mapHeight s) = (la \<le> 50)"
      using that by (auto simp: zero_le_mult_iff)
    then show "(offsetY s \<le> y (latLonToXY s la lo)) = (la \<le> US_LAT_MAX)"
      by (simp add: latLonToXY_y US_bounds)
    have "((50 - la) / 26 * mapHeight s \<le> 1 * mapHeight s) = ((50 - la) / 26 \<le> 1)"
      using that by (rule mult_le_cancel_right_pos)
    then have "((50 - la) / 26 * mapHeight s \<le> mapHeight s) = (24 \<le> la)"
      by auto
    then show "(y (latLonToXY s la lo) \<le> offsetY s + mapHeight s) = (US_LAT_MIN \<le> la)"
      by (simp add: latLonToXY_y US_bounds)
  qed
  from horizontal have h: "0 < mapWidth s \<longrightarrow>
        (offsetX s \<le> x (latLonToXY s la lo)) = (US_LON_MIN \<le> lo) \<and>
        (x (latLonToXY s la lo) \<le> offsetX s + mapWidth s) = (lo \<le> US_LON_MAX)"
    by (intro impI conjI)
  from vertical have v: "0 < mapHeight s \<longrightarrow>
        (offsetY s \<le> y (latLonToXY s la lo)) = (la \<le> US_LAT_MAX) \<and>
        (y (latLonToXY s la lo) \<le> offsetY s + mapHeight s) = (US_LAT_MIN \<le> la)"
    by (intro impI conjI)
  note parts = formula US_LAT_MIN_def US_LAT_MAX_def US_LON_MIN_def US_LON_MAX_def ends h v
  show ?thesis
    by (intro conjI; fact parts)
qed

theorem latLonToXY_linear_witness:
  "0 < mapWidth example_map \<and> 0 < mapHeight example_map
   \<and> latLonToXY example_map 60 (-60) = \<lparr>x = 1229, y = -114\<rparr>
   \<and> \<not> x (latLonToXY example_map 60 (-60)) \<le> offsetX example_map + mapWidth example_map
   \<and> \<not> offsetY example_map \<le> y (latLonToXY example_map 60 (-60))"
  using latLonToXY_linear [of example_map 60 "-60"]
  by (simp add: example_map_params US_bounds)

text \<open>
  Claim C6. The projection is monotonic: with a non-negative map width, a larger or equal
  longitude never gives a smaller x; with a non-negative map height, a larger or equal
  latitude never gives a larger y; and \<open>resize\<close> produces a non-negative map width and
  height from a viewport of non-negative width and height.
\<close>

theorem latLonToXY_monotonic:
  "(0 \<le> mapWidth s \<and> lo1 \<le> lo2 \<longrightarrow>
      x (latLonToXY s la1 lo1) \<le> x (latLonToXY s la2 lo2))
   \<and> (0 \<le> mapHeight s \<and> la1 \<le> la2 \<longrightarrow>
      y (latLonToXY s la2 lo2) \<le> y (latLonToXY s la1 lo1))
   \<and> (0 \<le> innerWidth win \<and> 0 \<le> innerHeight win \<longrightarrow>
      0 \<le> mapWidth (resize win s) \<and> 0 \<le> mapHeight (resize win s))"
proof (intro conjI impI)
  assume "0 \<le> mapWidth s \<and> lo1 \<le> lo2"
  then show "x (latLonToXY s la1 lo1) \<le> x (latLonToXY s la2 lo2)"
    by (simp add: latLonToXY_x mult_right_mono divide_right_mono)
next
  assume "0 \<le> mapHeight s \<and> la1 \<le> la2"
  then show "y (latLonToXY s la2 lo2) \<le> y (latLonToXY s la1 lo1)"
    by (simp add: latLonToXY_y mult_right_mono divide_right_mono)
next
  assume "0 \<le> innerWidth win \<and> 0 \<le> innerHeight win"
  then show "0 \<le> mapWidth (resize win s)"
    by (simp add: resize_map)
next
  assume "0 \<le> innerWidth win \<and> 0 \<le> innerHeight win"
  then show "0 \<le> mapHeight (resize win s)"
    by (simp add: resize_map)
qed

theorem latLonToXY_monotonic_witness:
  "0 \<le> innerWidth example_window \<and> 0 \<le> innerHeight example_window
   \<and> 0 \<le> mapWidth (resize example_window example_map)
   \<and> 0 \<le> mapHeight (resize example_window example_map)
   \<and> (-118 :: real) \<le> -74 \<and> (34 :: real) \<le> 40
   \<and> x (latLonToXY (resize example_window example_map) 34 (-118))
       \<le> x (latLonToXY (resize example_window example_map) 40 (-74))
   \<and> y (latLonToXY (resize example_window example_map) 40 (-74))
       \<le> y (latLonToXY (resize example_window example_map) 34 (-118))"
  using latLonToXY_monotonic
    [where s = "resize example_window example_map" and ?lo1.0 = "-118" and ?lo2.0 = "-74"
       and ?la1.0 = 34 and ?la2.0 = 40 and win = example_window]
  by (simp add: example_window_nonneg example_resize_params)

section \<open>Resize\<close>

text \<open>
  Claim C7. For every viewport width and height, which are non-negative, the four corners
  of the bounding box (latitude 24 or 50, longitude -125 or -66) are projected, with the
  parameters that \<open>resize\<close> computes, into the rectangle from \<open>offsetX\<close> to
  \<open>offsetX + mapWidth\<close> and from \<open>offsetY\<close> to \<open>offsetY + mapHeight\<close>.
\<close>

theorem resize_corners_inside:
  assumes "0 \<le> innerWidth win" and "0 \<le> innerHeight win"
  shows "\<forall>la \<in> {US_LAT_MIN, US_LAT_MAX}. \<forall>lo \<in> {US_LON_MIN, US_LON_MAX}.
           offsetX (resize win s) \<le> x (latLonToXY (resize win s) la lo) \<and>
           x (latLonToXY (resize win s) la lo) \<le> offsetX (resize win s) + mapWidth (resize win s) \<and>
           offsetY (resize win s) \<le> y (latLonToXY (resize win s) la lo) \<and>
           y (latLonToXY (resize win s) la lo) \<le> offsetY (resize win s) + mapHeight (resize win s)"
proof -
  from assms have "0 \<le> mapWidth (resize win s)" and "0 \<le> mapHeight (resize win s)"
    by (simp_all add: resize_map)
  then show ?thesis
    by (simp add: latLonToXY_x latLonToXY_y US_bounds)
qed

theorem resize_corners_inside_witness:
  "0 \<le> innerWidth example_window \<and> 0 \<le> innerHeight example_window
   \<and> latLonToXY (resize example_window example_map) 24 (-125) = \<lparr>x = 59, y = 534\<rparr>
   \<and> latLonToXY (resize example_window example_map) 50 (-66) = \<lparr>x = 1121, y = 66\<rparr>
   \<and> offsetX (resize example_window example_map)
        \<le> x (latLonToXY (resize example_window example_map) 24 (-125))
   \<and> x (latLonToXY (resize example_window example_map) 50 (-66))
        \<le> offsetX (resize example_window example_map) + mapWidth (resize example_window example_map)
   \<and> offsetY (resize example_window example_map)
        \<le> y (latLonToXY (resize example_window example_map) 50 (-66))
   \<and> y (latLonToXY (resize example_window example_map) 24 (-125))
        \<le> offsetY (resize example_window example_map) + mapHeight (resize example_window example_map)"
  using resize_corners_inside [OF example_window_nonneg, of example_map]
  by (simp add: example_window_nonneg example_resize_params latLonToXY_def US_bounds)

text \<open>
  Claim C8, as the code has it. \<open>resize\<close> is idempotent: a second invocation with the same
  viewport leaves the whole renderer state, \<open>mapWidth\<close>, \<open>mapHeight\<close>, \<open>offsetX\<close> and
  \<open>offsetY\<close> included, as the first invocation left it. Besides these four parameters an
  invocation writes the stored viewport size (\<open>width\<close>, \<open>height\<close>) and the canvas (bitmap
  size, which is the viewport size times the pixel ratio converted to an \<open>unsigned long\<close>,
  CSS size, context scale and image smoothing), which depend on the viewport and the
  stored pixel ratio only; it writes nothing else: the packets, the reduced-motion flag,
  the pixel ratio, the border path and the connections stay as they were.
\<close>

theorem resize_idempotent:
  "resize win (resize win s) = resize win s
   \<and> mapWidth (resize win (resize win s)) = mapWidth (resize win s)
   \<and> mapHeight (resize win (resize win s)) = mapHeight (resize win s)
   \<and> offsetX (resize win (resize win s)) = offsetX (resize win s)
   \<and> offsetY (resize win (resize win s)) = offsetY (resize win s)
   \<and> width (resize win s) = innerWidth win
   \<and> height (resize win s) = innerHeight win
   \<and> canvas (resize win s) =
       (canvas s)\<lparr>canvas_width := canvas_dimension 300 (innerWidth win * pixelRatio s),
         canvas_height := canvas_dimension 150 (innerHeight win * pixelRatio s),
         style_width := innerWidth win, style_height := innerHeight win,
         ctx_scale := (pixelRatio s, pixelRatio s),
         imageSmoothingEnabled := True, imageSmoothingQuality := ''high''\<rparr>
   \<and> dataPackets (resize win s) = dataPackets s
   \<and> prefersReducedMotion (resize win s) = prefersReducedMotion s
   \<and> pixelRatio (resize win s) = pixelRatio s
   \<and> nationPath (resize win s) = nationPath s
   \<and> connections (resize win s) = connections s"
proof -
  have idem: "resize win (resize win s) = resize win s"
  proof (rule USMap.equality)
    show "canvas (resize win (resize win s)) = canvas (resize win s)"
      by (simp add: resize_canvas resize_frame)
    show "USMap.more (resize win (resize win s)) = USMap.more (resize win s)"
      by (simp add: resize_def Let_def split_beta)
  qed (simp_all add: resize_map resize_frame resize_viewport)
  then show ?thesis
    by (simp add: resize_frame resize_viewport resize_canvas)
qed

text \<open>
  The claim C8 as it is written does not hold: on the example renderer, built for a
  viewport 1180 pixels wide, two resizes in succession for a viewport 800 pixels wide
  change \<open>width\<close> and the canvas, which are renderer state other than \<open>mapWidth\<close>,
  \<open>mapHeight\<close>, \<open>offsetX\<close> and \<open>offsetY\<close>.
\<close>

theorem resize_writes_viewport_counterexample:
  "width (resize narrow_window (resize narrow_window example_map)) = 800
   \<and> width example_map = 1180
   \<and> width (resize narrow_window (resize narrow_window example_map)) \<noteq> width example_map
   \<and> canvas (resize narrow_window (resize narrow_window example_map)) \<noteq> canvas example_map"
proof -
  have "canvas_width (canvas (resize narrow_window (resize narrow_window example_map))) = 1600"
    by (simp add: resize_canvas resize_frame example_map_params narrow_window_def
        canvas_dimension_integer_part)
  moreover have "canvas_width (canvas example_map) = 2360"
    by (simp add: example_map_canvas)
  ultimately have "canvas (resize narrow_window (resize narrow_window example_map))
      \<noteq> canvas example_map"
    by auto
  then show ?thesis
    by (simp add: resize_viewport example_map_params narrow_window_def)
qed

text \<open>
  Claim C8 as the code has it, on the renderer constructed for a viewport of 801 by 601 pixels at
  pixel ratio one and a half: the bitmap keeps the integer parts 1201 and 901 of 1201.5
  and 901.5, and a second resize changes nothing.
\<close>

theorem resize_idempotent_witness:
  "canvas_width (canvas (resize odd_window odd_map)) = 1201
   \<and> canvas_height (canvas (resize odd_window odd_map)) = 901
   \<and> ctx_scale (canvas (resize odd_window odd_map)) = (3 / 2, 3 / 2)
   \<and> resize odd_window (resize odd_window odd_map) = resize odd_window odd_map"
proof -
  note facts = resize_idempotent [of odd_window odd_map]
  from facts have idem: "resize odd_window (resize odd_window odd_map) = resize odd_window odd_map"
    by (rule conjunct1)
  from facts have cv: "canvas (resize odd_window odd_map) =
       (canvas odd_map)\<lparr>canvas_width := canvas_dimension 300 (innerWidth odd_window * pixelRatio odd_map),
         canvas_height := canvas_dimension 150 (innerHeight odd_window * pixelRatio odd_map),
         style_width := innerWidth odd_window, style_height := innerHeight odd_window,
         ctx_scale := (pixelRatio odd_map, pixelRatio odd_map),
         imageSmoothingEnabled := True, imageSmoothingQuality := ''high''\<rparr>"
    by (elim conjE)
  have "canvas_width (canvas (resize odd_window odd_map)) =
      canvas_dimension 300 (innerWidth odd_window * pixelRatio odd_map)"
    "canvas_height (canvas (resize odd_window odd_map)) =
      canvas_dimension 150 (innerHeight odd_window * pixelRatio odd_map)"
    "ctx_scale (canvas (resize odd_window odd_map)) = (pixelRatio odd_map, pixelRatio odd_map)"
    by (simp_all add: cv)
  with idem show ?thesis
    by (simp only: odd_map_pixelRatio odd_window_size odd_dims simp_thms)
qed

section \<open>The curve of a packet\<close>

text \<open>
  Claim C5. For every pair of projected source and destination points, the quadratic
  curve used for the position of a packet is exactly the source point at progress 0 and
  exactly the destination point at progress 1. This holds for any two points.
\<close>

theorem packetPosition_endpoints:
  "packetPosition (latLonToXY s la1 lo1) (latLonToXY s la2 lo2) 0 = latLonToXY s la1 lo1
   \<and> packetPosition (latLonToXY s la1 lo1) (latLonToXY s la2 lo2) 1 = latLonToXY s la2 lo2
   \<and> packetPosition a b 0 = a \<and> packetPosition a b 1 = b"
  by (simp add: packetPosition_def)

text \<open>
  Claim C9. For the locations (latitude 40, longitude -74) and (latitude 34, longitude
  -118), under any projection parameters, the position of the packet at progress one half
  has a y coordinate strictly smaller than the y coordinate of the midpoint of the
  straight line between the two projected points: it lies above it, by 25 pixels plus a
  quarter of the vertical distance of the two points.
\<close>

theorem packetPosition_mid_above:
  "y (packetPosition (latLonToXY s 40 (-74)) (latLonToXY s 34 (-118)) (1 / 2))
     < (y (latLonToXY s 40 (-74)) + y (latLonToXY s 34 (-118))) / 2
   \<and> (y (latLonToXY s 40 (-74)) + y (latLonToXY s 34 (-118))) / 2
       - y (packetPosition (latLonToXY s 40 (-74)) (latLonToXY s 34 (-118)) (1 / 2))
     = 25 + \<bar>y (latLonToXY s 40 (-74)) - y (latLonToXY s 34 (-118))\<bar> / 4"
  by (simp add: packetPosition_def min_def field_simps)

section \<open>Connections\<close>









section \<open>Data packets\<close>

lemma randomIndex_range:
  assumes "0 \<le> r" "r < 1"
  shows "0 \<le> randomIndex r" "randomIndex r < int (length edgeLocations)"
  using assms by (simp_all add: randomIndex_def length_edgeLocations floor_less_iff)

lemma newPacket_ok: "valid_rng rnd \<Longrightarrow> packet_ok (newPacket rnd k)"
  by (simp add: valid_rng_def packet_ok_def newPacket_def randomIndex_range)

lemma initDataPackets_loop_ok:
  "valid_rng rnd \<Longrightarrow> list_all packet_ok acc \<Longrightarrow>
   list_all packet_ok (initDataPackets_loop rnd n i k acc)"
proof (induction rnd n i k acc rule: initDataPackets_loop.induct)
  case (1 rnd n i k acc)
  show ?case
  proof (cases "i < n")
    case True
    with "1" show ?thesis
      by (subst initDataPackets_loop.simps) (simp add: newPacket_ok)
  next
    case False
    with "1.prems" show ?thesis by (subst initDataPackets_loop.simps) simp
  qed
qed

lemma advancePacket_ok:
  "valid_rng rnd \<Longrightarrow> packet_ok p \<Longrightarrow> packet_ok (fst (advancePacket reduced rnd k p))"
  by (auto simp: advancePacket_def Let_def packet_ok_def valid_rng_def randomIndex_range)

lemma drawPacket_ok: "packet_ok p \<Longrightarrow> \<exists>pt. drawPacket s p = Inr pt"
  by (simp add: drawPacket_def js_index_def packet_ok_def Let_def)

lemma forEach_packets_ok:
  "valid_rng rnd \<Longrightarrow> list_all packet_ok ps \<Longrightarrow>
   list_all packet_ok (fst (forEach_packets s rnd k ps)) \<and>
   (\<exists>pts. snd (forEach_packets s rnd k ps) = Inr pts \<and> length pts = length ps)"
proof (induction ps arbitrary: k)
  case Nil
  then show ?case by simp
next
  case (Cons p ps)
  obtain p' k' where adv: "advancePacket (prefersReducedMotion s) rnd k p = (p', k')"
    by (cases "advancePacket (prefersReducedMotion s) rnd k p")
  from Cons.prems have "packet_ok p" by simp
  with Cons.prems(1) adv have ok': "packet_ok p'"
    using advancePacket_ok [of rnd p "prefersReducedMotion s" k] by simp
  then obtain pt where pt: "drawPacket s p' = Inr pt"
    using drawPacket_ok by blast
  from Cons.prems have "list_all packet_ok ps" by simp
  from Cons.IH [OF Cons.prems(1) this, of k']
  obtain pts where rest: "list_all packet_ok (fst (forEach_packets s rnd k' ps))"
    "snd (forEach_packets s rnd k' ps) = Inr pts" "length pts = length ps"
    by blast
  show ?case using adv ok' pt rest by (simp add: split_beta)
qed

lemma forEach_packets_reduced:
  "prefersReducedMotion s \<Longrightarrow> fst (forEach_packets s rnd k ps) = ps"
proof (induction ps arbitrary: k)
  case Nil
  then show ?case by simp
next
  case (Cons p ps)
  then show ?case
    by (simp add: advancePacket_def split_beta split: sum.splits)
qed

lemma drawDataPackets_reduced:
  "prefersReducedMotion s \<Longrightarrow> fst (drawDataPackets rnd s) = s"
  by (simp add: drawDataPackets_def split_beta forEach_packets_reduced)

lemma drawDataPackets_ok:
  assumes "valid_rng rnd" "list_all packet_ok (dataPackets s)"
  shows "list_all packet_ok (dataPackets (fst (drawDataPackets rnd s)))"
    and "\<exists>pts. snd (drawDataPackets rnd s) = Inr pts \<and> length pts = length (dataPackets s)"
  using forEach_packets_ok [OF assms, of s 0]
  by (simp_all add: drawDataPackets_def split_beta)

lemma loadUSBorder_packets: "dataPackets (loadUSBorder geo s) = dataPackets s"
proof (cases geo)
  case (FeatureCollection fs)
  have "dataPackets (fold extractCoordinates fs s) = dataPackets s"
  proof (induction fs arbitrary: s)
    case Nil show ?case by simp
  next
    case (Cons g gs) 
    show ?case by (cases g) (simp_all add: Cons.IH)
  qed
  with FeatureCollection show ?thesis by simp
next
  case (Feature g)
  then show ?thesis by (cases g) simp_all
qed

lemma new_USMap_ok:
  assumes "valid_rng rnd" "new_USMap cv ctx win geo rnd = Inr s"
  shows "list_all packet_ok (dataPackets s)"
proof -
  from assms(2) have "ctx" by (auto simp: new_USMap_def split: if_splits)
  with assms(2) obtain s3 where s: "s = initDataPackets rnd win s3" and "dataPackets s3 = []"
    by (auto simp: new_USMap_def Let_def resize_def split_beta generateConnections_def loadUSBorder_packets)
  then show ?thesis
    using initDataPackets_loop_ok [OF assms(1), of "[]"]
    by (simp add: initDataPackets_def Let_def)
qed

lemma reachable_ok: "reachable s \<Longrightarrow> list_all packet_ok (dataPackets s)"
proof (induction rule: reachable.induct)
  case (constructed rnd win cv geo s)
  then show ?case using new_USMap_ok by blast
next
  case (frame s rnd)
  then show ?case using drawDataPackets_ok(1) by (simp add: animate_def)
next
  case (resized s win)
  then show ?case by (simp add: resize_def Let_def split_beta)
next
  case (motion_changed s b)
  then show ?case by simp
qed


lemma draws_used_Nil: "draws_used reduced [] = 0"
  by (simp add: draws_used_def)

lemma draws_used_Cons:
  "draws_used reduced (p # ps) = draws_used reduced [p] + draws_used reduced ps"
  by (simp add: draws_used_def)

lemma advancePacket_draws:
  "snd (advancePacket reduced rnd k p) = k + draws_used reduced [p]"
  by (simp add: advancePacket_def draws_used_def Let_def)

lemma forEach_packets_length:
  "valid_rng rnd \<Longrightarrow> list_all packet_ok ps \<Longrightarrow>
   length (fst (forEach_packets s rnd k ps)) = length ps"
proof (induction ps arbitrary: k)
  case Nil
  then show ?case by simp
next
  case (Cons p ps)
  then show ?case
    by (simp add: split_beta split: sum.splits)
qed

lemma forEach_packets_nth:
  "valid_rng rnd \<Longrightarrow> list_all packet_ok ps \<Longrightarrow> i < length ps \<Longrightarrow>
   fst (forEach_packets s rnd k ps) ! i =
     fst (advancePacket (prefersReducedMotion s) rnd
            (k + draws_used (prefersReducedMotion s) (take i ps)) (ps ! i))"
proof (induction ps arbitrary: k i)
  case Nil
  then show ?case by simp
next
  case (Cons p ps)
  obtain p' k' where adv: "advancePacket (prefersReducedMotion s) rnd k p = (p', k')"
    by (cases "advancePacket (prefersReducedMotion s) rnd k p")
  then have k': "k' = k + draws_used (prefersReducedMotion s) [p]"
    using advancePacket_draws [of "prefersReducedMotion s" rnd k p] by simp
  from Cons.prems have "packet_ok p" and rest: "list_all packet_ok ps"
    by simp_all
  with Cons.prems(1) adv have "packet_ok p'"
    using advancePacket_ok [of rnd p "prefersReducedMotion s" k] by simp
  then obtain pt where pt: "drawPacket s p' = Inr pt"
    using drawPacket_ok by blast
  have front: "fst (forEach_packets s rnd k (p # ps)) = p' # fst (forEach_packets s rnd k' ps)"
    using adv pt by (simp add: split_beta)
  show ?case
  proof (cases i)
    case 0
    show ?thesis
      unfolding front 0 using adv by (simp add: draws_used_Nil)
  next
    case (Suc j)
    with Cons.prems have "j < length ps" by simp
    from Cons.IH [OF Cons.prems(1) rest this, of k']
    have "fst (forEach_packets s rnd k' ps) ! j =
        fst (advancePacket (prefersReducedMotion s) rnd
          (k' + draws_used (prefersReducedMotion s) (take j ps)) (ps ! j))" .
    with k' show ?thesis
      unfolding front Suc
      by (simp add: draws_used_Cons [of _ p "take j ps"] add.assoc)
  qed
qed

lemma drawDataPackets_length:
  assumes "valid_rng rnd" and "list_all packet_ok (dataPackets s)"
  shows "length (dataPackets (fst (drawDataPackets rnd s))) = length (dataPackets s)"
  using forEach_packets_length [OF assms, of s 0]
  by (simp add: drawDataPackets_def split_beta)

lemma drawDataPackets_nth:
  assumes "valid_rng rnd" and "list_all packet_ok (dataPackets s)" and "i < length (dataPackets s)"
  shows "dataPackets (fst (drawDataPackets rnd s)) ! i =
     fst (advancePacket (prefersReducedMotion s) rnd (draws_before s i) (dataPackets s ! i))"
  using forEach_packets_nth [OF assms, of s 0]
  by (simp add: drawDataPackets_def split_beta draws_before_def)

text \<open>
  Claim C2. The progress of every packet is in \<open>[0, 1)\<close> in every reachable state, that is
  after initialization and after every frame, whatever the random values. A frame keeps
  the number of packets, and without reduced motion it does the following to the packet at
  every index \<open>i\<close>: if the advanced progress reaches or exceeds 1, that same frame sets its
  progress to exactly 0 and assigns it the source and destination indices made from the
  next two random values; otherwise it advances the progress by the speed and changes
  nothing else.
\<close>

theorem progress_in_unit_interval:
  assumes "reachable s" and "valid_rng rnd"
  shows "list_all (\<lambda>p. 0 \<le> progress p \<and> progress p < 1) (dataPackets s)
    \<and> list_all (\<lambda>p. 0 \<le> progress p \<and> progress p < 1) (dataPackets (fst (animate rnd s)))
    \<and> (1 \<le> progress p + speed p \<longrightarrow>
         advancePacket False rnd k p =
           (p\<lparr>progress := 0, pfrom := randomIndex (rnd k), pto := randomIndex (rnd (k + 1))\<rparr>,
            k + 2))
    \<and> length (dataPackets (fst (animate rnd s))) = length (dataPackets s)
    \<and> (i < length (dataPackets s) \<and> \<not> prefersReducedMotion s
         \<and> 1 \<le> progress (dataPackets s ! i) + speed (dataPackets s ! i) \<longrightarrow>
         dataPackets (fst (animate rnd s)) ! i =
           (dataPackets s ! i)\<lparr>progress := 0,
              pfrom := randomIndex (rnd (draws_before s i)),
              pto := randomIndex (rnd (draws_before s i + 1))\<rparr>)
    \<and> (i < length (dataPackets s) \<and> \<not> prefersReducedMotion s
         \<and> progress (dataPackets s ! i) + speed (dataPackets s ! i) < 1 \<longrightarrow>
         dataPackets (fst (animate rnd s)) ! i =
           (dataPackets s ! i)\<lparr>progress := progress (dataPackets s ! i) + speed (dataPackets s ! i)\<rparr>)"
proof -
  have weaken: "list_all (\<lambda>p. 0 \<le> progress p \<and> progress p < 1) ps" if "list_all packet_ok ps" for ps
    using that by (simp add: list_all_iff packet_ok_def)
  from assms(1) have now: "list_all packet_ok (dataPackets s)"
    by (rule reachable_ok)
  from assms have "reachable (fst (animate rnd s))"
    by (rule reachable.frame)
  then have after: "list_all packet_ok (dataPackets (fst (animate rnd s)))"
    by (rule reachable_ok)
  have single: "advancePacket False rnd k p =
      (p\<lparr>progress := 0, pfrom := randomIndex (rnd k), pto := randomIndex (rnd (k + 1))\<rparr>, k + 2)"
    if "1 \<le> progress p + speed p" for p k
    using that by (simp add: advancePacket_def Let_def)
  have len: "length (dataPackets (fst (animate rnd s))) = length (dataPackets s)"
    using drawDataPackets_length [OF assms(2) now] by (simp add: animate_def)
  have nth: "dataPackets (fst (animate rnd s)) ! i =
      fst (advancePacket (prefersReducedMotion s) rnd (draws_before s i) (dataPackets s ! i))"
    if "i < length (dataPackets s)"
    using drawDataPackets_nth [OF assms(2) now that] by (simp add: animate_def)
  have wrap: "dataPackets (fst (animate rnd s)) ! i =
           (dataPackets s ! i)\<lparr>progress := 0,
              pfrom := randomIndex (rnd (draws_before s i)),
              pto := randomIndex (rnd (draws_before s i + 1))\<rparr>"
    if "i < length (dataPackets s) \<and> \<not> prefersReducedMotion s
         \<and> 1 \<le> progress (dataPackets s ! i) + speed (dataPackets s ! i)"
    using that nth by (simp add: single)
  have move: "dataPackets (fst (animate rnd s)) ! i =
           (dataPackets s ! i)\<lparr>progress := progress (dataPackets s ! i) + speed (dataPackets s ! i)\<rparr>"
    if "i < length (dataPackets s) \<and> \<not> prefersReducedMotion s
         \<and> progress (dataPackets s ! i) + speed (dataPackets s ! i) < 1"
    using that nth by (simp add: advancePacket_def Let_def)
  from weaken [OF now] weaken [OF after] single len wrap move show ?thesis
    by (intro conjI impI)
qed

theorem progress_in_unit_interval_witness:
  "reachable late_map \<and> valid_rng example_rng
   \<and> (1 :: nat) < length (dataPackets late_map) \<and> \<not> prefersReducedMotion late_map
   \<and> dataPackets late_map ! 1 = \<lparr>pfrom = 27, pto = 27, progress = 0.999, speed = 0.004997\<rparr>
   \<and> 1 \<le> progress (dataPackets late_map ! 1) + speed (dataPackets late_map ! 1)
   \<and> draws_before late_map 1 = 2
   \<and> dataPackets (fst (animate example_rng late_map)) ! 1 =
       \<lparr>pfrom = 14, pto = 14, progress = 0, speed = 0.004997\<rparr>
   \<and> list_all (\<lambda>p. 0 \<le> progress p \<and> progress p < 1) (dataPackets late_map)
   \<and> list_all (\<lambda>p. 0 \<le> progress p \<and> progress p < 1)
        (dataPackets (fst (animate example_rng late_map)))
   \<and> reachable example_map \<and> (0 :: nat) < length (dataPackets example_map)
   \<and> \<not> prefersReducedMotion example_map
   \<and> progress (dataPackets example_map ! 0) + speed (dataPackets example_map ! 0) < 1
   \<and> dataPackets (fst (animate example_rng example_map)) ! 0 =
       \<lparr>pfrom = 14, pto = 14, progress = 0.5035, speed = 0.0035\<rparr>
   \<and> 1 \<le> progress example_packet + speed example_packet
   \<and> advancePacket False example_rng 0 example_packet =
       (\<lparr>pfrom = 14, pto = 14, progress = 0, speed = 0.002\<rparr>, 2)"
proof -
  have late: "dataPackets late_map ! 1 = \<lparr>pfrom = 27, pto = 27, progress = 0.999, speed = 0.004997\<rparr>"
    "(1 :: nat) < length (dataPackets late_map)"
    by (simp_all add: late_packets)
  have before: "draws_before late_map 1 = 2"
    by (simp add: draws_before_def draws_used_def late_packets late_flag)
  have early: "dataPackets example_map ! 0 = \<lparr>pfrom = 14, pto = 14, progress = 1 / 2, speed = 0.0035\<rparr>"
    "(0 :: nat) < length (dataPackets example_map)"
    by (simp_all add: example_packets)
  have wraps: "1 \<le> progress example_packet + speed example_packet"
    by (simp add: example_packet_def)
  have drawn: "randomIndex (example_rng k) = 14" for k
    by (simp add: example_rng_def randomIndex_def length_edgeLocations)
  from progress_in_unit_interval
      [OF late_map_reachable example_rng_valid, of example_packet 0 1]
    progress_in_unit_interval
      [OF example_map_reachable example_rng_valid, of example_packet 0 0]
    late before early wraps drawn late_map_reachable example_map_reachable example_rng_valid
  show ?thesis
    by (simp add: late_flag example_flag example_packet_def)
qed

text \<open>
  Claim C3. When the reduced-motion flag is true, invoking the per-frame packet step any
  number of times, once for each element of \<open>rnds\<close>, leaves every packet as it was before
  the first invocation: its progress, its source index and its destination index. The
  whole renderer state is unchanged.
\<close>

theorem reduced_motion_freezes_packets:
  assumes "prefersReducedMotion s"
  shows "drawDataPackets_times rnds s = s
    \<and> map progress (dataPackets (drawDataPackets_times rnds s)) = map progress (dataPackets s)
    \<and> map pfrom (dataPackets (drawDataPackets_times rnds s)) = map pfrom (dataPackets s)
    \<and> map pto (dataPackets (drawDataPackets_times rnds s)) = map pto (dataPackets s)"
proof -
  have "fold (\<lambda>rnd s'. fst (drawDataPackets rnd s')) rnds s = s"
    using assms by (induction rnds) (simp_all add: drawDataPackets_reduced)
  then show ?thesis
    by (simp add: drawDataPackets_times_def)
qed

theorem reduced_motion_freezes_packets_witness:
  "prefersReducedMotion (example_map\<lparr>prefersReducedMotion := True\<rparr>)
   \<and> drawDataPackets_times [example_rng, example_rng, example_rng]
        (example_map\<lparr>prefersReducedMotion := True\<rparr>)
      = example_map\<lparr>prefersReducedMotion := True\<rparr>
   \<and> map progress (dataPackets (drawDataPackets_times [example_rng, example_rng, example_rng]
        (example_map\<lparr>prefersReducedMotion := True\<rparr>))) = replicate 25 (1 / 2)"
  using reduced_motion_freezes_packets
    [of "example_map\<lparr>prefersReducedMotion := True\<rparr>" "[example_rng, example_rng, example_rng]"]
  by (simp add: example_packets)

text \<open>
  Claim C10. In every reachable state, at initialization and after every random
  reassignment, the source and destination indices of every packet are natural numbers
  below the length of the location list, which is 28; so in the per-frame step every
  lookup in the location list is in bounds: the step ends without a \<open>TypeError\<close>, having
  drawn every packet, and leaves the indices in bounds again.
\<close>

theorem packet_indices_in_bounds:
  assumes "reachable s" and "valid_rng rnd"
  shows "list_all (\<lambda>p. 0 \<le> pfrom p \<and> pfrom p < 28 \<and> 0 \<le> pto p \<and> pto p < 28) (dataPackets s)
    \<and> list_all (\<lambda>p. js_index edgeLocations (pfrom p) \<noteq> None \<and> js_index edgeLocations (pto p) \<noteq> None)
        (dataPackets s)
    \<and> (\<exists>pts. snd (drawDataPackets rnd s) = Inr pts \<and> length pts = length (dataPackets s))
    \<and> list_all (\<lambda>p. 0 \<le> pfrom p \<and> pfrom p < 28 \<and> 0 \<le> pto p \<and> pto p < 28)
        (dataPackets (fst (drawDataPackets rnd s)))
    \<and> int (length edgeLocations) = 28"
proof -
  have weaken: "list_all (\<lambda>p. 0 \<le> pfrom p \<and> pfrom p < 28 \<and> 0 \<le> pto p \<and> pto p < 28) ps"
    if "list_all packet_ok ps" for ps
    using that by (simp add: list_all_iff packet_ok_def length_edgeLocations)
  have lookups: "list_all (\<lambda>p. js_index edgeLocations (pfrom p) \<noteq> None
      \<and> js_index edgeLocations (pto p) \<noteq> None) ps"
    if "list_all packet_ok ps" for ps
    using that by (simp add: list_all_iff packet_ok_def js_index_def)
  from assms(1) have now: "list_all packet_ok (dataPackets s)"
    by (rule reachable_ok)
  note step = drawDataPackets_ok [OF assms(2) now]
  from weaken [OF now] lookups [OF now] step(2) weaken [OF step(1)] show ?thesis
    by (simp add: length_edgeLocations)
qed

theorem packet_indices_in_bounds_witness:
  "reachable example_map \<and> valid_rng example_rng
   \<and> list_all (\<lambda>p. 0 \<le> pfrom p \<and> pfrom p < 28 \<and> 0 \<le> pto p \<and> pto p < 28)
        (dataPackets example_map)
   \<and> map pfrom (dataPackets example_map) = replicate 25 14
   \<and> (\<exists>pts. snd (drawDataPackets example_rng example_map) = Inr pts \<and> length pts = 25)"
  using packet_indices_in_bounds [OF example_map_reachable example_rng_valid]
  by (simp add: example_map_reachable example_rng_valid example_packets)

end
